theory Spec2Isabelle
  imports Main
begin

section \<open>The tree model of lxml\<close>

text \<open>
  The analysis code of \<^verbatim>\<open>api/v1/docs/analysis.py\<close> and the helpers of
  \<^verbatim>\<open>api/v1/xutils.py\<close> work on nodes of a parsed lxml tree. A tag and an attribute
  name are a namespace URI together with a local name (lxml writes \<^verbatim>\<open>{uri}local\<close>);
  the empty URI stands for "no namespace".

  lxml has three kinds of node objects, all instances of \<^verbatim>\<open>etree._Element\<close>: elements,
  comments and processing instructions (xutils.py, lines 40 to 43). Character data is not
  a node object: it is the \<^verbatim>\<open>text\<close> of the node it follows the start tag of and the
  \<^verbatim>\<open>tail\<close> of the node it follows the end of.
\<close>

type_synonym qname = "string \<times> string"

datatype node =
    Element qname "(qname \<times> string) list" "string option" "node list" "string option"
  | Comment string "string option"
  | ProcessingInstruction string string "string option"

text \<open>
  A document is the list of its top-level nodes (the root element, and the comments and
  processing instructions beside it). A node object is identified by its position: the
  path of child indices that leads to it from the top level. Two node objects of lxml are
  the same object exactly when they have the same position.
\<close>

type_synonym document = "node list"
type_synonym path = "nat list"

fun children :: "node \<Rightarrow> node list" where
  "children (Element t a tx cs ta) = cs"
| "children (Comment c ta) = []"
| "children (ProcessingInstruction tg c ta) = []"

fun tail :: "node \<Rightarrow> string option" where
  "tail (Element t a tx cs ta) = ta"
| "tail (Comment c ta) = ta"
| "tail (ProcessingInstruction tg c ta) = ta"

fun node_at :: "node list \<Rightarrow> path \<Rightarrow> node option" where
  "node_at ns [] = None"
| "node_at ns [i] = (if i < length ns then Some (ns ! i) else None)"
| "node_at ns (i # j # js) =
     (if i < length ns then node_at (children (ns ! i)) (j # js) else None)"

text \<open>The namespace table of xutils.py, lines 6 to 15.\<close>

definition basic_ns :: "(string \<times> string) list" where
  "basic_ns = [(''xml'', ''http://www.w3.org/XML/1998/namespace''),
               (''xi'', ''http://www.w3.org/2001/XInclude'')]"

definition tei_ns :: "(string \<times> string) list" where
  "tei_ns = [(''tei'', ''http://www.tei-c.org/ns/1.0'')]"

definition xml_ns :: "(string \<times> string) list" where
  "xml_ns = basic_ns @ tei_ns"

text \<open>
  A prefixed name of an XPath expression, resolved through \<^verbatim>\<open>namespaces=xml_ns\<close>.
  An unprefixed attribute name has no namespace.
\<close>

definition prefixed :: "string \<Rightarrow> string \<Rightarrow> qname" where
  "prefixed pre l = (case map_of xml_ns pre of Some uri \<Rightarrow> (uri, l) | None \<Rightarrow> ('''', l))"

abbreviation tei :: "string \<Rightarrow> qname" where
  "tei l \<equiv> prefixed ''tei'' l"

abbreviation xml :: "string \<Rightarrow> qname" where
  "xml l \<equiv> prefixed ''xml'' l"

abbreviation unprefixed :: "string \<Rightarrow> qname" where
  "unprefixed l \<equiv> ('''', l)"

section \<open>XPath steps\<close>

text \<open>
  The XPath expressions of the source are written with the following combinators, one for
  each kind of step that occurs in them. A name test and the test \<^verbatim>\<open>*\<close> select
  elements only, never comments or processing instructions.
\<close>

definition is_element_node :: "node \<Rightarrow> bool" where
  "is_element_node n = (case n of Element t a tx cs ta \<Rightarrow> True | _ \<Rightarrow> False)"

definition has_tag :: "qname \<Rightarrow> node \<Rightarrow> bool" where
  "has_tag q n = (case n of Element t a tx cs ta \<Rightarrow> t = q | _ \<Rightarrow> False)"

definition attributes :: "node \<Rightarrow> (qname \<times> string) list" where
  "attributes n = (case n of Element t a tx cs ta \<Rightarrow> a | _ \<Rightarrow> [])"

text \<open>\<^verbatim>\<open>self::*\<close> and \<^verbatim>\<open>self::pre:name\<close>, as booleans.\<close>

definition self_element :: "document \<Rightarrow> path \<Rightarrow> bool" where
  "self_element d p = (case node_at d p of Some n \<Rightarrow> is_element_node n | None \<Rightarrow> False)"

definition self_name :: "qname \<Rightarrow> document \<Rightarrow> path \<Rightarrow> bool" where
  "self_name q d p = (case node_at d p of Some n \<Rightarrow> has_tag q n | None \<Rightarrow> False)"

text \<open>
  \<^verbatim>\<open>ancestor::*\<close>: the element ancestors, which lxml returns in document order, the
  outermost first. The ancestors of a node are the nodes at the proper prefixes of its path.
\<close>

definition xpath_ancestors :: "document \<Rightarrow> path \<Rightarrow> path list" where
  "xpath_ancestors d p =
     (case node_at d p of
        None \<Rightarrow> []
      | Some n \<Rightarrow> filter (self_element d) (map (\<lambda>k. take k p) [1..<length p]))"

text \<open>
  \<^verbatim>\<open>preceding-sibling::*\<close>: the element siblings before the node, in document order.
\<close>

definition xpath_preceding_siblings :: "document \<Rightarrow> path \<Rightarrow> path list" where
  "xpath_preceding_siblings d p =
     (case node_at d p of
        None \<Rightarrow> []
      | Some n \<Rightarrow> filter (self_element d) (map (\<lambda>j. butlast p @ [j]) [0..<last p]))"

text \<open>\<^verbatim>\<open>@name\<close>: the values of the attributes of that name (at most one in a parsed tree).\<close>

definition xpath_attribute :: "qname \<Rightarrow> document \<Rightarrow> path \<Rightarrow> string list" where
  "xpath_attribute q d p =
     (case node_at d p of
        None \<Rightarrow> []
      | Some n \<Rightarrow> map snd (filter (\<lambda>kv. fst kv = q) (attributes n)))"

text \<open>
  \<^verbatim>\<open>ancestor::*[e]\<close> as a boolean, for a boolean expression \<open>e\<close> evaluated at each
  ancestor: some element ancestor satisfies \<open>e\<close>. \<^verbatim>\<open>ancestor::pre:name\<close> is the case where
  \<open>e\<close> is \<^verbatim>\<open>self::pre:name\<close>.
\<close>

type_synonym xpath_bool = "document \<Rightarrow> path \<Rightarrow> bool"

definition ancestor_exists :: "xpath_bool \<Rightarrow> xpath_bool" where
  "ancestor_exists e d p = list_ex (e d) (xpath_ancestors d p)"

text \<open>\<^verbatim>\<open>[@name]\<close>: the node has an attribute of that name.\<close>

definition has_attribute :: "qname \<Rightarrow> xpath_bool" where
  "has_attribute q d p = (xpath_attribute q d p \<noteq> [])"

section \<open>Errors, and calls of compiled XPath objects\<close>

datatype error = TypeError | ValueError | IndexError | AttributeError

text \<open>
  \<^verbatim>\<open>etree.XPath(expr, namespaces=xml_ns)\<close> builds an object that is called on a node.
  lxml takes only an element as the context node of such a call and raises otherwise:
  xutils.py, line 29, records that \<^verbatim>\<open>etree.XPath('boolean(self::*)')\<close> "throws an error
  with processing instructions", which is why \<^verbatim>\<open>is_element\<close> is written with
  \<^verbatim>\<open>isinstance\<close>. The method \<^verbatim>\<open>node.xpath(expr)\<close> has no such check.
\<close>

definition XPath :: "xpath_bool \<Rightarrow> document \<Rightarrow> path \<Rightarrow> error + bool" where
  "XPath e d p = (if self_element d p then Inr (e d p) else Inl ValueError)"

section \<open>xutils.py\<close>

text \<open>
  \<^verbatim>\<open>is_element\<close>, lines 40 to 43. Every node object of a tree is an instance of
  \<^verbatim>\<open>etree._Element\<close>; comments and processing instructions are instances of its
  subclasses \<^verbatim>\<open>etree._Comment\<close> and \<^verbatim>\<open>etree._ProcessingInstruction\<close>.
\<close>

definition isinstance_Element :: "node \<Rightarrow> bool" where
  "isinstance_Element n = True"

definition isinstance_ProcessingInstruction :: "node \<Rightarrow> bool" where
  "isinstance_ProcessingInstruction n =
     (case n of ProcessingInstruction tg c ta \<Rightarrow> True | _ \<Rightarrow> False)"

definition isinstance_Comment :: "node \<Rightarrow> bool" where
  "isinstance_Comment n = (case n of Comment c ta \<Rightarrow> True | _ \<Rightarrow> False)"

definition is_element :: "node \<Rightarrow> bool" where
  "is_element n =
     (isinstance_Element n \<and> \<not> (isinstance_ProcessingInstruction n \<or> isinstance_Comment n))"

text \<open>
  \<^verbatim>\<open>exists(elem, xpath_expr)\<close>, lines 46 and 47. A call is modelled with the list of its
  positional arguments, since Python checks their number before it runs the body: a call
  with one argument raises TypeError. An XPath expression given as a Python string is
  represented by its translation. With a string in the place of \<^verbatim>\<open>elem\<close> the body would
  raise AttributeError (a string has no method \<^verbatim>\<open>xpath\<close>), with a node in the place of
  \<^verbatim>\<open>xpath_expr\<close> TypeError (a string and a node cannot be concatenated).
\<close>

datatype argument = Node path | Expr xpath_bool

fun exists :: "document \<Rightarrow> argument list \<Rightarrow> error + bool" where
  "exists d [Node p, Expr e] = Inr (e d p)"
| "exists d [Expr e', xpath_expr] = Inl AttributeError"
| "exists d [Node p, Node p'] = Inl TypeError"
| "exists d args = Inl TypeError"

text \<open>
  \<^verbatim>\<open>is_more_than_whitespace\<close>, lines 50 and 51: \<^verbatim>\<open>bool(re.match(r'\S', string))\<close>.
  \<^verbatim>\<open>re.match\<close> tries the pattern at the start of the string only. The whitespace
  characters of \<^verbatim>\<open>\s\<close> among the first 256 code points are 9 to 13, 28 to 32, 133
  and 160.
\<close>

definition is_whitespace :: "char \<Rightarrow> bool" where
  "is_whitespace c = ((of_char c :: nat) \<in> {9, 10, 11, 12, 13, 28, 29, 30, 31, 32, 133, 160})"

definition re_match_S :: "string \<Rightarrow> string option" where
  "re_match_S s = (case s of [] \<Rightarrow> None | c # cs \<Rightarrow> if is_whitespace c then None else Some [c])"

definition is_more_than_whitespace :: "string \<Rightarrow> bool" where
  "is_more_than_whitespace s = (re_match_S s \<noteq> None)"

text \<open>\<^verbatim>\<open>get_xml_id\<close>, lines 54 to 59.\<close>

definition get_xml_id :: "document \<Rightarrow> path \<Rightarrow> string" where
  "get_xml_id d p =
     (let xml_id = xpath_attribute (xml ''id'') d p
      in if length xml_id = 1 then xml_id ! 0 else '''')"

text \<open>
  \<^verbatim>\<open>node.get(key)\<close>: the value of the attribute, or None. A comment and a processing
  instruction have no attributes.
\<close>

definition node_get :: "qname \<Rightarrow> document \<Rightarrow> path \<Rightarrow> string option" where
  "node_get q d p = (case node_at d p of None \<Rightarrow> None | Some n \<Rightarrow> map_of (attributes n) q)"

text \<open>
  \<^verbatim>\<open>get_list_type\<close>, lines 62 to 68. In the step \<^verbatim>\<open>ancestor::tei:list[@type][1]\<close> the
  position counts along the ancestor axis, from the node outwards, so that the step
  selects the last in document order of the ancestors that pass the first two tests.
\<close>

definition list_with_type :: xpath_bool where
  "list_with_type d p = (self_name (tei ''list'') d p \<and> has_attribute (unprefixed ''type'') d p)"

definition nearest_list_type :: "document \<Rightarrow> path \<Rightarrow> string list" where
  "nearest_list_type d p =
     (case rev (filter (list_with_type d) (xpath_ancestors d p)) of
        [] \<Rightarrow> []
      | a # as \<Rightarrow> xpath_attribute (unprefixed ''type'') d a)"

definition get_list_type :: "document \<Rightarrow> path \<Rightarrow> error + string option" where
  "get_list_type d p =
     (case exists d [Node p, Expr list_with_type] of
        Inl e \<Rightarrow> Inl e
      | Inr b1 \<Rightarrow>
          if b1 then Inr (node_get (unprefixed ''type'') d p)
          else (case exists d [Node p, Expr (ancestor_exists list_with_type)] of
                  Inl e \<Rightarrow> Inl e
                | Inr b2 \<Rightarrow>
                    if b2 then (case nearest_list_type d p of
                                  [] \<Rightarrow> Inl IndexError
                                | v # vs \<Rightarrow> Inr (Some v))
                    else Inr (Some '''')))"

section \<open>docs/analysis.py: node types\<close>

text \<open>
  The three document types, the subclasses of \<^verbatim>\<open>DocAnalysis\<close>. Each one holds two XPath
  definitions, written here as the source writes them: \<^verbatim>\<open>__structural_node_def\<close> and
  \<^verbatim>\<open>__basic_node_def\<close>.
\<close>

datatype analysis = GuidelinesAnalysis | ProjectmembersAnalysis | SpecialcharsAnalysis

definition guidelines_leaf :: xpath_bool where
  "guidelines_leaf d p =
     (self_name (tei ''p'') d p \<or> self_name (tei ''head'') d p \<or> self_name (tei ''list'') d p)"

definition projectmembers_leaf :: xpath_bool where
  "projectmembers_leaf d p =
     (self_name (tei ''head'') d p \<or> self_name (tei ''org'') d p \<or> self_name (tei ''person'') d p)"

fun structural_node_def :: "analysis \<Rightarrow> xpath_bool" where
  "structural_node_def GuidelinesAnalysis d p =
     (self_name (tei ''div'') d p \<and> ancestor_exists (self_name (tei ''text'')) d p)"
| "structural_node_def ProjectmembersAnalysis d p =
     (self_name (tei ''listPerson'') d p \<and> ancestor_exists (self_name (tei ''text'')) d p)"
| "structural_node_def SpecialcharsAnalysis d p =
     (self_name (tei ''charDecl'') d p \<and> ancestor_exists (self_name (tei ''teiHeader'')) d p)"

fun basic_node_def :: "analysis \<Rightarrow> xpath_bool" where
  "basic_node_def GuidelinesAnalysis d p =
     (guidelines_leaf d p \<and> \<not> ancestor_exists guidelines_leaf d p)"
| "basic_node_def ProjectmembersAnalysis d p =
     (projectmembers_leaf d p \<and> \<not> ancestor_exists projectmembers_leaf d p)"
| "basic_node_def SpecialcharsAnalysis d p = self_name (tei ''char'') d p"

text \<open>
  \<^verbatim>\<open>__is_structural_node_xpath\<close> and \<^verbatim>\<open>__is_basic_node_xpath\<close>: the second is the basic
  definition, \<^verbatim>\<open>' and ancestor::*['\<close>, the structural definition and \<^verbatim>\<open>']'\<close>.
\<close>

definition is_structural_node_xpath :: "analysis \<Rightarrow> xpath_bool" where
  "is_structural_node_xpath a = structural_node_def a"

definition is_basic_node_xpath :: "analysis \<Rightarrow> xpath_bool" where
  "is_basic_node_xpath a d p =
     (basic_node_def a d p \<and> ancestor_exists (structural_node_def a) d p)"

definition is_structural_node :: "analysis \<Rightarrow> document \<Rightarrow> path \<Rightarrow> error + bool" where
  "is_structural_node a d p = XPath (is_structural_node_xpath a) d p"

definition is_basic_node :: "analysis \<Rightarrow> document \<Rightarrow> path \<Rightarrow> error + bool" where
  "is_basic_node a d p = XPath (is_basic_node_xpath a) d p"

text \<open>\<^verbatim>\<open>DocAnalysis.get_node_type\<close>, lines 39 to 51. An exception of a test passes through.\<close>

definition get_node_type :: "analysis \<Rightarrow> document \<Rightarrow> path \<Rightarrow> error + string" where
  "get_node_type a d p =
     (case is_structural_node a d p of
        Inl e \<Rightarrow> Inl e
      | Inr s \<Rightarrow>
          if s then Inr ''structural''
          else (case is_basic_node a d p of
                  Inl e \<Rightarrow> Inl e
                | Inr b \<Rightarrow> if b then Inr ''basic'' else Inr ''''))"

section \<open>docs/analysis.py: citetrails\<close>

text \<open>
  Modelled from the spec: \<^verbatim>\<open>DocConfig\<close> of \<^verbatim>\<open>api/v1/docs/config.py\<close>, which is not
  among the sources. The spec (4.3 and 6) gives it a mapping from stable identifiers to
  citetrails and the operation \<^verbatim>\<open>get_citetrail_mapping(stable_id)\<close>, which reads the
  mapping and yields the citetrail, or nothing when the identifier has none; writing is
  done by the external indexer. The operation is in state-passing style: it returns the
  configuration it leaves behind.
\<close>

record DocConfig =
  citetrail_mapping :: "string \<rightharpoonup> string"

definition get_citetrail_mapping :: "DocConfig \<Rightarrow> string \<Rightarrow> string option \<times> DocConfig" where
  "get_citetrail_mapping config stable_id = (citetrail_mapping config stable_id, config)"

text \<open>\<^verbatim>\<open>str\<close> of a natural number: its decimal digits.\<close>

definition digit :: "nat \<Rightarrow> char" where
  "digit k = char_of (48 + k)"

fun str :: "nat \<Rightarrow> string" where
  "str n = (if n < 10 then [digit n] else str (n div 10) @ [digit (n mod 10)])"

text \<open>
  A list comprehension \<^verbatim>\<open>[x for x in xs if c(x)]\<close> whose condition may raise: the first
  exception ends it. The condition \<^verbatim>\<open>self.get_node_type(x)\<close> is a string, which counts
  as true when it is not empty.
\<close>

fun comprehension :: "('a \<Rightarrow> error + bool) \<Rightarrow> 'a list \<Rightarrow> error + 'a list" where
  "comprehension c [] = Inr []"
| "comprehension c (x # xs) =
     (case c x of
        Inl e \<Rightarrow> Inl e
      | Inr b \<Rightarrow> (case comprehension c xs of
                    Inl e \<Rightarrow> Inl e
                  | Inr ys \<Rightarrow> Inr (if b then x # ys else ys)))"

definition has_node_type :: "analysis \<Rightarrow> document \<Rightarrow> path \<Rightarrow> error + bool" where
  "has_node_type a d p =
     (case get_node_type a d p of Inl e \<Rightarrow> Inl e | Inr s \<Rightarrow> Inr (s \<noteq> ''''))"

text \<open>
  \<^verbatim>\<open>GuidelinesAnalysis.make_citetrail\<close>, lines 111 to 121, with its local variables.
  \<^verbatim>\<open>node_id\<close> (line 112) is never used and \<^verbatim>\<open>node.get\<close> does not raise. The index
  \<^verbatim>\<open>[::-1][0]\<close> is the head of the reversed list.
\<close>

definition citetrail_preceding :: "document \<Rightarrow> path \<Rightarrow> error + path list" where
  "citetrail_preceding d p =
     comprehension (has_node_type GuidelinesAnalysis d) (xpath_preceding_siblings d p)"

definition citetrail_ancestors :: "document \<Rightarrow> path \<Rightarrow> error + path list" where
  "citetrail_ancestors d p =
     comprehension (has_node_type GuidelinesAnalysis d) (xpath_ancestors d p)"

definition guidelines_make_citetrail ::
  "DocConfig \<Rightarrow> document \<Rightarrow> path \<Rightarrow> (error + string) \<times> DocConfig" where
  "guidelines_make_citetrail config d p =
     (case citetrail_preceding d p of
        Inl e \<Rightarrow> (Inl e, config)
      | Inr preceding \<Rightarrow>
         (case citetrail_ancestors d p of
            Inl e \<Rightarrow> (Inl e, config)
          | Inr ancestors \<Rightarrow>
             (let cite = str (length preceding + 1) in
              if length ancestors \<noteq> 0 then
                (case rev ancestors of
                   [] \<Rightarrow> (Inl IndexError, config)
                 | citetrail_parent # rest \<Rightarrow>
                    (case get_citetrail_mapping config (get_xml_id d citetrail_parent) of
                       (None, config') \<Rightarrow> (Inl TypeError, config')
                     | (Some cp_citetrail, config') \<Rightarrow>
                         (Inr (cp_citetrail @ ''.'' @ cite), config')))
              else (Inr cite, config))))"

text \<open>\<^verbatim>\<open>make_citetrail\<close> of each class: lines 111, 162 and 198.\<close>

fun make_citetrail ::
  "analysis \<Rightarrow> DocConfig \<Rightarrow> document \<Rightarrow> path \<Rightarrow> (error + string) \<times> DocConfig" where
  "make_citetrail GuidelinesAnalysis config d p = guidelines_make_citetrail config d p"
| "make_citetrail ProjectmembersAnalysis config d p = (Inr ''placeholder'', config)"
| "make_citetrail SpecialcharsAnalysis config d p = (Inr ''placeholder'', config)"

declare str.simps [simp del]

section \<open>docs/analysis.py: titles\<close>

text \<open>
  What \<^verbatim>\<open>make_title\<close> returns: a string, \<^verbatim>\<open>None\<close>, or \<^verbatim>\<open>str\<close> of an element
  object (line 191), a text of the form \<^verbatim>\<open><Element {uri}name at 0x...>\<close> that holds the
  address of the object and is represented by the position of the element.
\<close>

datatype title = Title string | ElementStr path | NoTitle

text \<open>
  The child step \<^verbatim>\<open>pre:name\<close>, the text nodes of an element (its own text, then the
  tails of its children), and document order, in which lxml returns a node set.
\<close>

definition xpath_child :: "qname \<Rightarrow> document \<Rightarrow> path \<Rightarrow> path list" where
  "xpath_child q d p =
     (case node_at d p of
        None \<Rightarrow> []
      | Some n \<Rightarrow> filter (self_name q d) (map (\<lambda>i. p @ [i]) [0..<length (children n)]))"

definition text_node :: "string option \<Rightarrow> string list" where
  "text_node t = (case t of None \<Rightarrow> [] | Some s \<Rightarrow> if s = '''' then [] else [s])"

definition xpath_text :: "document \<Rightarrow> path \<Rightarrow> string list" where
  "xpath_text d p =
     (case node_at d p of
        Some (Element t a tx cs ta) \<Rightarrow> text_node tx @ concat (map (\<lambda>c. text_node (tail c)) cs)
      | _ \<Rightarrow> [])"

fun precedes :: "path \<Rightarrow> path \<Rightarrow> bool" where
  "precedes [] q = True"
| "precedes (i # p) [] = False"
| "precedes (i # p) (j # q) = (i < j \<or> (i = j \<and> precedes p q))"

fun insert_in_order :: "path \<Rightarrow> path list \<Rightarrow> path list" where
  "insert_in_order x [] = [x]"
| "insert_in_order x (y # ys) =
     (if x = y then y # ys
      else if precedes x y then x # y # ys
      else y # insert_in_order x ys)"

definition document_order :: "path list \<Rightarrow> path list" where
  "document_order ps = foldr insert_in_order ps []"

text \<open>
  Line 191:
  \<^verbatim>\<open>ancestor::tei:teiheader/tei:fileDesc/tei:titleStmt/tei:title[@xml:lang = "en"]\<close>.
  Line 194: \<^verbatim>\<open>tei:desc/text()\<close>.
\<close>

definition header_titles :: "document \<Rightarrow> path \<Rightarrow> path list" where
  "header_titles d p =
     document_order
       (filter (\<lambda>t. ''en'' \<in> set (xpath_attribute (xml ''lang'') d t))
          (concat (map (xpath_child (tei ''title'') d)
            (concat (map (xpath_child (tei ''titleStmt'') d)
              (concat (map (xpath_child (tei ''fileDesc'') d)
                (filter (self_name (tei ''teiheader'') d) (xpath_ancestors d p)))))))))"

definition desc_texts :: "document \<Rightarrow> path \<Rightarrow> string list" where
  "desc_texts d p = concat (map (xpath_text d) (xpath_child (tei ''desc'') d p))"

text \<open>
  \<^verbatim>\<open>SpecialcharsAnalysis.make_title\<close>, lines 189 to 196. Both calls of \<^verbatim>\<open>exists\<close> pass
  one argument, the expression.
\<close>

definition specialchars_make_title :: "document \<Rightarrow> path \<Rightarrow> error + title" where
  "specialchars_make_title d p =
     (case exists d [Expr (self_name (tei ''charDecl''))] of
        Inl e \<Rightarrow> Inl e
      | Inr b1 \<Rightarrow>
          if b1 then (case header_titles d p of
                        [] \<Rightarrow> Inl IndexError
                      | t # ts \<Rightarrow> Inr (ElementStr t))
          else (case exists d [Expr (\<lambda>d p. self_name (tei ''char'') d p
                                          \<and> xpath_child (tei ''desc'') d p \<noteq> [])] of
                  Inl e \<Rightarrow> Inl e
                | Inr b2 \<Rightarrow>
                    if b2 then (case desc_texts d p of
                                  [] \<Rightarrow> Inl IndexError
                                | s # ss \<Rightarrow> Inr (Title s))
                    else Inr NoTitle))"

text \<open>\<^verbatim>\<open>make_title\<close> of each class: lines 108, 159 and 189.\<close>

fun make_title :: "analysis \<Rightarrow> document \<Rightarrow> path \<Rightarrow> error + title" where
  "make_title GuidelinesAnalysis d p = Inr (Title ''placeholder'')"
| "make_title ProjectmembersAnalysis d p = Inr (Title ''placeholder'')"
| "make_title SpecialcharsAnalysis d p = specialchars_make_title d p"

section \<open>The citetrail algorithm as the specification words it\<close>

text \<open>
  The reference algorithm of the specification (4.1, steps 1 to 5), for the Guidelines
  variant, written from its words and independently of the code above: it counts among
  all preceding siblings and searches among all ancestors, nearest first, and a node is
  classified when \<^verbatim>\<open>get_node_type\<close> returns a non-empty string for it.
\<close>

definition all_ancestors :: "path \<Rightarrow> path list" where
  "all_ancestors p = map (\<lambda>k. take k p) [1..<length p]"

definition all_preceding_siblings :: "path \<Rightarrow> path list" where
  "all_preceding_siblings p = map (\<lambda>j. butlast p @ [j]) [0..<last p]"

definition classified :: "document \<Rightarrow> path \<Rightarrow> bool" where
  "classified d q =
     (case get_node_type GuidelinesAnalysis d q of Inl e \<Rightarrow> False | Inr s \<Rightarrow> s \<noteq> '''')"

definition ordinal :: "document \<Rightarrow> path \<Rightarrow> nat" where
  "ordinal d p = 1 + length (filter (classified d) (all_preceding_siblings p))"

definition nearest_classified_ancestor :: "document \<Rightarrow> path \<Rightarrow> path option" where
  "nearest_classified_ancestor d p = find (classified d) (rev (all_ancestors p))"

definition make_citetrail_reference :: "DocConfig \<Rightarrow> document \<Rightarrow> path \<Rightarrow> error + string" where
  "make_citetrail_reference config d p =
     (case nearest_classified_ancestor d p of
        None \<Rightarrow> Inr (str (ordinal d p))
      | Some parent \<Rightarrow>
          (case citetrail_mapping config (get_xml_id d parent) of
             None \<Rightarrow> Inl TypeError
           | Some parent_citetrail \<Rightarrow> Inr (parent_citetrail @ ''.'' @ str (ordinal d p))))"

section \<open>A sample document\<close>

text \<open>
  A TEI document with a stylesheet instruction before the root element, a header that
  holds a division, and a text body with one division: a heading, a comment, a paragraph
  that holds a typed list with one item, and a second paragraph.
\<close>

definition sample_body :: node where
  "sample_body =
     Element (tei ''div'') [(xml ''id'', ''d1'')] None
       [Element (tei ''head'') [] (Some ''Title'') [] None,
        Comment ''note'' None,
        Element (tei ''p'') [] (Some ''text'')
          [Element (tei ''list'') [(unprefixed ''type'', ''ordered'')] None
             [Element (tei ''item'') [] (Some ''one'') [] None] None] None,
        Element (tei ''p'') [] None [] None]
       None"

definition sample_doc :: document where
  "sample_doc =
     [ProcessingInstruction ''xml-stylesheet'' ''href=tei.css'' None,
      Element (tei ''TEI'') [] None
        [Element (tei ''teiHeader'') [] None [Element (tei ''div'') [] None [] None] None,
         Element (tei ''text'') [] None [sample_body] None]
        None]"

definition sample_config :: DocConfig where
  "sample_config = \<lparr>citetrail_mapping = map_of [(''d1'', ''1'')]\<rparr>"

section \<open>Lemmas on the tree, the node types and the helpers\<close>

lemma node_at_Nil: "node_at [] p = None"
  by (cases "([] :: node list, p)" rule: node_at.cases) simp_all

lemma children_Element:
  "children n \<noteq> [] \<Longrightarrow> \<exists>t a tx cs ta. n = Element t a tx cs ta"
  by (cases n) simp_all

lemma node_at_Cons_Cons:
  "node_at ns (i # j # js) = Some n \<Longrightarrow>
     i < length ns \<and> node_at (children (ns ! i)) (j # js) = Some n \<and> children (ns ! i) \<noteq> []"
proof -
  assume a: "node_at ns (i # j # js) = Some n"
  then have i: "i < length ns" by (simp split: if_splits)
  with a have sub: "node_at (children (ns ! i)) (j # js) = Some n" by simp
  have "children (ns ! i) \<noteq> []"
  proof
    assume "children (ns ! i) = []"
    with sub show False by (simp add: node_at_Nil)
  qed
  with i sub show ?thesis by simp
qed

lemma node_at_take:
  "node_at ns p = Some n \<Longrightarrow> 0 < k \<Longrightarrow> k < length p \<Longrightarrow>
     \<exists>t a tx cs ta. node_at ns (take k p) = Some (Element t a tx cs ta)"
proof (induction ns p arbitrary: k rule: node_at.induct)
  case (1 ns)
  then show ?case by simp
next
  case (2 ns i)
  then show ?case by simp
next
  case (3 ns i j js)
  from node_at_Cons_Cons[OF "3.prems"(1)]
  have i: "i < length ns" and sub: "node_at (children (ns ! i)) (j # js) = Some n"
    and ne: "children (ns ! i) \<noteq> []" by simp_all
  from "3.prems" obtain k' where k: "k = Suc k'" by (cases k) simp_all
  show ?case
  proof (cases k')
    case 0
    from children_Element[OF ne] obtain t a tx cs ta where "ns ! i = Element t a tx cs ta"
      by blast
    moreover have "take k (i # j # js) = [i]" using k 0 by simp
    ultimately show ?thesis using i by simp
  next
    case (Suc k'')
    with k "3.prems" have "0 < k'" "k' < length (j # js)" by simp_all
    from "3.IH"[OF i sub this] obtain t a tx cs ta
      where e: "node_at (children (ns ! i)) (take k' (j # js)) = Some (Element t a tx cs ta)"
      by blast
    have t: "take k (i # j # js) = i # j # take k'' js" using k Suc by simp
    have t': "take k' (j # js) = j # take k'' js" using Suc by simp
    have "node_at ns (take k (i # j # js)) = Some (Element t a tx cs ta)"
      unfolding t using e i unfolding t' by simp
    then show ?thesis by blast
  qed
qed

lemma ancestors_are_elements:
  "node_at d p = Some n \<Longrightarrow> q \<in> set (all_ancestors p) \<Longrightarrow> self_element d q"
proof -
  assume n: "node_at d p = Some n" and q: "q \<in> set (all_ancestors p)"
  from q obtain k where k: "q = take k p" "1 \<le> k" "k < length p"
    unfolding all_ancestors_def by auto
  from node_at_take[OF n, of k] k obtain t a tx cs ta
    where "node_at d q = Some (Element t a tx cs ta)" by auto
  then show ?thesis by (simp add: self_element_def is_element_node_def)
qed

lemma xpath_ancestors_all:
  "node_at d p = Some n \<Longrightarrow> xpath_ancestors d p = all_ancestors p"
  unfolding xpath_ancestors_def
  using ancestors_are_elements[of d p n]
  by (simp add: all_ancestors_def filter_id_conv)

lemma get_node_type_non_element:
  "\<not> self_element d p \<Longrightarrow> get_node_type a d p = Inl ValueError"
  by (simp add: get_node_type_def is_structural_node_def XPath_def)

lemma get_node_type_element:
  "self_element d p \<Longrightarrow> get_node_type a d p =
     Inr (if is_structural_node_xpath a d p then ''structural''
          else if is_basic_node_xpath a d p then ''basic'' else '''')"
  by (simp add: get_node_type_def is_structural_node_def is_basic_node_def XPath_def)

lemma classified_element: "classified d q \<Longrightarrow> self_element d q"
  by (cases "self_element d q") (simp_all add: classified_def get_node_type_non_element)

lemma has_node_type_element:
  "self_element d q \<Longrightarrow> has_node_type GuidelinesAnalysis d q = Inr (classified d q)"
  by (simp add: has_node_type_def classified_def get_node_type_element)

lemma comprehension_filter:
  "(\<And>x. x \<in> set xs \<Longrightarrow> c x = Inr (g x)) \<Longrightarrow> comprehension c xs = Inr (filter g xs)"
  by (induction xs) simp_all

lemma element_and_classified: "(self_element d x \<and> classified d x) = classified d x"
  by (auto dest: classified_element)

lemma filter_classified_elements:
  "filter (classified d) (filter (self_element d) xs) = filter (classified d) xs"
  by (induction xs) (auto dest: classified_element)

lemma citetrail_preceding_eq:
  "node_at d p = Some n \<Longrightarrow>
     citetrail_preceding d p = Inr (filter (classified d) (all_preceding_siblings p))"
  unfolding citetrail_preceding_def
  by (subst comprehension_filter[where g = "classified d"])
     (auto simp: xpath_preceding_siblings_def has_node_type_element
        element_and_classified all_preceding_siblings_def)

lemma citetrail_ancestors_eq:
  "node_at d p = Some n \<Longrightarrow>
     citetrail_ancestors d p = Inr (filter (classified d) (all_ancestors p))"
  unfolding citetrail_ancestors_def
  by (subst comprehension_filter[where g = "classified d"])
     (auto simp: xpath_ancestors_def has_node_type_element
        element_and_classified all_ancestors_def)

lemma find_filter: "find P xs = (case filter P xs of [] \<Rightarrow> None | x # ys \<Rightarrow> Some x)"
  by (induction xs) simp_all

lemma of_char_digit: "k < 10 \<Longrightarrow> (of_char (digit k) :: nat) = 48 + k"
  unfolding digit_def by (simp add: of_char_of)

lemma digit_not_dot: "k < 10 \<Longrightarrow> digit k \<noteq> CHR ''.''"
proof
  assume k: "k < 10" and eq: "digit k = CHR ''.''"
  have "(of_char (digit k) :: nat) = 48 + k" using k by (rule of_char_digit)
  moreover have "(of_char (CHR ''.'') :: nat) = 46" by simp
  ultimately show False using eq by simp
qed


lemma str_no_dot: "CHR ''.'' \<notin> set (str n)"
proof (induction n rule: str.induct)
  case (1 n)
  show ?case
  proof (cases "n < 10")
    case True
    then have "str n = [digit n]" by (subst str.simps) simp
    with True digit_not_dot[of n] show ?thesis by simp
  next
    case False
    then have eq: "str n = str (n div 10) @ [digit (n mod 10)]" by (subst str.simps) simp
    have "n mod 10 < 10" by simp
    then have "digit (n mod 10) \<noteq> CHR ''.''" by (rule digit_not_dot)
    moreover from False have "CHR ''.'' \<notin> set (str (n div 10))" by (rule "1.IH")
    ultimately show ?thesis using eq by auto
  qed
qed

lemma prefixed_tei: "prefixed ''tei'' l = (''http://www.tei-c.org/ns/1.0'', l)"
  by (simp add: prefixed_def xml_ns_def basic_ns_def tei_ns_def)

lemma prefixed_xml: "prefixed ''xml'' l = (''http://www.w3.org/XML/1998/namespace'', l)"
  by (simp add: prefixed_def xml_ns_def basic_ns_def tei_ns_def)

lemma sample_nodes:
  "node_at sample_doc [0] = Some (ProcessingInstruction ''xml-stylesheet'' ''href=tei.css'' None)"
  "node_at sample_doc [1, 1, 0] = Some sample_body"
  "node_at sample_doc [1, 1, 0, 1] = Some (Comment ''note'' None)"
  "node_at sample_doc [1, 1, 0, 3] = Some (Element (tei ''p'') [] None [] None)"
  by (simp_all add: sample_doc_def sample_body_def)

lemma sample_non_elements:
  "\<not> self_element sample_doc [0]" "\<not> self_element sample_doc [1, 1, 0, 1]"
  unfolding self_element_def sample_nodes by (simp_all add: is_element_node_def)

lemma sample_paragraph: "self_element sample_doc [1, 1, 0, 3]"
  by code_simp

lemma is_more_than_whitespace_first:
  "is_more_than_whitespace s = (s \<noteq> [] \<and> \<not> is_whitespace (hd s))"
  by (cases s) (simp_all add: is_more_than_whitespace_def re_match_S_def)

section \<open>The node type\<close>

text \<open>
  On an element both tests return, and \<^verbatim>\<open>get_node_type\<close> follows them in the order of
  lines 46 to 51: \<^verbatim>\<open>'structural'\<close> when \<^verbatim>\<open>is_structural_node\<close> holds, otherwise
  \<^verbatim>\<open>'basic'\<close> when \<^verbatim>\<open>is_basic_node\<close> holds, otherwise the empty string.
\<close>

lemma get_node_type_on_element:
  assumes "self_element d p"
  shows "\<exists>s b. is_structural_node a d p = Inr s \<and> is_basic_node a d p = Inr b \<and>
           get_node_type a d p = Inr (if s then ''structural'' else if b then ''basic'' else '''') \<and>
           (get_node_type a d p = Inr ''structural'') = s \<and>
           (get_node_type a d p = Inr ''basic'') = (\<not> s \<and> b) \<and>
           (get_node_type a d p = Inr '''') = (\<not> s \<and> \<not> b)"
  using assms
  by (simp add: get_node_type_def is_structural_node_def is_basic_node_def XPath_def)

text \<open>
  Claim C2, at the processing instruction before the root element of the sample document.
  The claim is about every node and has three results that cover all cases. At this node
  neither test holds (each raises ValueError, since the compiled XPath object is called on
  a node that is not an element), and \<^verbatim>\<open>get_node_type\<close> does not return the empty
  string, nor \<^verbatim>\<open>'structural'\<close>, nor \<^verbatim>\<open>'basic'\<close>: it raises.
\<close>

theorem get_node_type_not_exhaustive:
  "node_at sample_doc [0] = Some (ProcessingInstruction ''xml-stylesheet'' ''href=tei.css'' None) \<and>
   is_structural_node GuidelinesAnalysis sample_doc [0] = Inl ValueError \<and>
   is_basic_node GuidelinesAnalysis sample_doc [0] = Inl ValueError \<and>
   get_node_type GuidelinesAnalysis sample_doc [0] \<noteq> Inr ''structural'' \<and>
   get_node_type GuidelinesAnalysis sample_doc [0] \<noteq> Inr ''basic'' \<and>
   get_node_type GuidelinesAnalysis sample_doc [0] \<noteq> Inr ''''"
  unfolding get_node_type_non_element[OF sample_non_elements(1)]
  using sample_non_elements(1) sample_nodes(1)
  by (simp add: is_structural_node_def is_basic_node_def XPath_def)

text \<open>
  Claim C8, at a processing instruction and at a comment. \<^verbatim>\<open>get_node_type\<close> calls the
  compiled XPath object of \<^verbatim>\<open>is_structural_node\<close> on the node, and that call raises for a
  node that is not an element: on the stylesheet instruction before the root element and
  on the comment inside the division of the sample document \<^verbatim>\<open>get_node_type\<close> raises
  ValueError where the claim (and the docstring of \<^verbatim>\<open>get_node_type\<close>) has the empty
  string. \<^verbatim>\<open>is_element\<close> is False for both, as the claim says.
\<close>

theorem get_node_type_on_instruction:
  "get_node_type GuidelinesAnalysis sample_doc [0] = Inl ValueError \<and>
   get_node_type ProjectmembersAnalysis sample_doc [0] = Inl ValueError \<and>
   get_node_type SpecialcharsAnalysis sample_doc [0] = Inl ValueError \<and>
   get_node_type GuidelinesAnalysis sample_doc [1, 1, 0, 1] = Inl ValueError \<and>
   is_element (ProcessingInstruction ''xml-stylesheet'' ''href=tei.css'' None) = False \<and>
   is_element (Comment ''note'' None) = False"
  unfolding get_node_type_non_element[OF sample_non_elements(1)]
    get_node_type_non_element[OF sample_non_elements(2)]
  by (simp add: is_element_def isinstance_Comment_def isinstance_ProcessingInstruction_def)

section \<open>Placeholders and titles\<close>

text \<open>
  Claim C4, as stated, fails: \<^verbatim>\<open>ProjectmembersAnalysis.make_citetrail\<close> returns the
  string \<^verbatim>\<open>'placeholder'\<close> on the second paragraph of the sample document.
\<close>

theorem placeholder_returned:
  "fst (make_citetrail ProjectmembersAnalysis sample_config sample_doc [1, 1, 0, 3]) =
     Inr ''placeholder''"
  by simp

text \<open>
  Claim C4, amended. The operations that are not yet implemented return the string
  \<^verbatim>\<open>'placeholder'\<close> for every node and raise nothing: \<^verbatim>\<open>make_citetrail\<close> of the
  project-members and special-characters variants (leaving the configuration as it was),
  and \<^verbatim>\<open>make_title\<close> of the guidelines and project-members variants.
\<close>

theorem unimplemented_return_placeholder:
  "make_citetrail ProjectmembersAnalysis config d p = (Inr ''placeholder'', config) \<and>
   make_citetrail SpecialcharsAnalysis config d p = (Inr ''placeholder'', config) \<and>
   make_title GuidelinesAnalysis d p = Inr (Title ''placeholder'') \<and>
   make_title ProjectmembersAnalysis d p = Inr (Title ''placeholder'')"
  by simp

text \<open>
  Claim C5. \<^verbatim>\<open>SpecialcharsAnalysis.make_title\<close> raises TypeError on every node, also on
  one that is neither a \<^verbatim>\<open>tei:charDecl\<close> nor a \<^verbatim>\<open>tei:char\<close> with a \<^verbatim>\<open>tei:desc\<close> child,
  where the claim has \<^verbatim>\<open>None\<close>: line 190 calls \<^verbatim>\<open>exists\<close> with the expression alone,
  without the node, and the \<^verbatim>\<open>else\<close> branch that returns \<^verbatim>\<open>None\<close> is never reached.
\<close>

theorem specialchars_make_title_raises:
  "make_title SpecialcharsAnalysis d p = Inl TypeError"
  by (simp add: specialchars_make_title_def)

section \<open>Whitespace\<close>

text \<open>
  Claim C9, at the string of a space followed by the letter a. It holds a character that
  is not whitespace, and \<^verbatim>\<open>is_more_than_whitespace\<close> returns False for it: \<^verbatim>\<open>re.match\<close>
  looks at the start of the string only.
\<close>

theorem is_more_than_whitespace_leading_space:
  "is_more_than_whitespace '' a'' = False \<and> \<not> is_whitespace (CHR ''a'') \<and> CHR ''a'' \<in> set '' a''"
  by (simp add: is_more_than_whitespace_def re_match_S_def is_whitespace_def)

section \<open>The citetrail\<close>

text \<open>
  Claim C6. \<^verbatim>\<open>make_citetrail\<close> leaves the configuration, and with it the citetrail
  mapping, exactly as it was, for every document type, node and outcome: its only use of
  the configuration is the lookup \<^verbatim>\<open>get_citetrail_mapping\<close>.
\<close>

theorem make_citetrail_reads_only:
  "snd (make_citetrail a config d p) = config"
  by (cases a)
     (simp_all add: guidelines_make_citetrail_def get_citetrail_mapping_def Let_def
        split: sum.splits list.splits option.splits)

text \<open>
  Claim C1. For the Guidelines variant and every node of a document, \<^verbatim>\<open>make_citetrail\<close>
  returns what the reference algorithm returns: with the ordinal one more than the number
  of preceding siblings whose \<^verbatim>\<open>get_node_type\<close> is a non-empty string, it is the cached
  citetrail of the nearest ancestor whose \<^verbatim>\<open>get_node_type\<close> is non-empty (looked up by the
  \<^verbatim>\<open>xml:id\<close> of that ancestor), a dot, and the ordinal in decimal; without such an
  ancestor it is the ordinal in decimal, a string without a dot. When the mapping has no
  entry for the ancestor, both end in the same error.
\<close>

theorem make_citetrail_refines_reference:
  assumes "node_at d p = Some n"
  shows "fst (make_citetrail GuidelinesAnalysis config d p) = make_citetrail_reference config d p \<and>
         (nearest_classified_ancestor d p = None \<longrightarrow>
            fst (make_citetrail GuidelinesAnalysis config d p) = Inr (str (ordinal d p)) \<and>
            CHR ''.'' \<notin> set (str (ordinal d p)))"
proof -
  let ?A = "filter (classified d) (all_ancestors p)"
  have pre: "citetrail_preceding d p = Inr (filter (classified d) (all_preceding_siblings p))"
    using assms by (rule citetrail_preceding_eq)
  have anc: "citetrail_ancestors d p = Inr ?A"
    using assms by (rule citetrail_ancestors_eq)
  have near: "nearest_classified_ancestor d p = (case rev ?A of [] \<Rightarrow> None | x # xs \<Rightarrow> Some x)"
    by (simp add: nearest_classified_ancestor_def find_filter rev_filter)
  have eq: "fst (make_citetrail GuidelinesAnalysis config d p) = make_citetrail_reference config d p"
  proof (cases "rev ?A")
    case Nil
    then have "?A = []" by simp
    with Nil show ?thesis
      unfolding make_citetrail.simps guidelines_make_citetrail_def make_citetrail_reference_def
        pre anc near
      by (simp add: ordinal_def)
  next
    case (Cons x xs)
    then have "?A \<noteq> []" by auto
    with Cons show ?thesis
      unfolding make_citetrail.simps guidelines_make_citetrail_def make_citetrail_reference_def
        pre anc near
      by (simp add: ordinal_def get_citetrail_mapping_def split: option.splits)
  qed
  moreover have "nearest_classified_ancestor d p = None \<Longrightarrow>
      make_citetrail_reference config d p = Inr (str (ordinal d p))"
    by (simp add: make_citetrail_reference_def)
  ultimately show ?thesis using str_no_dot by simp
qed

theorem make_citetrail_refines_reference_witness:
  "node_at sample_doc [1, 1, 0, 3] = Some (Element (tei ''p'') [] None [] None) \<and>
   fst (make_citetrail GuidelinesAnalysis sample_config sample_doc [1, 1, 0, 3]) =
     make_citetrail_reference sample_config sample_doc [1, 1, 0, 3] \<and>
   make_citetrail_reference sample_config sample_doc [1, 1, 0, 3] = Inr ''1.3''"
proof -
  have v: "make_citetrail_reference sample_config sample_doc [1, 1, 0, 3] = Inr ''1.3''"
    by code_simp
  from make_citetrail_refines_reference [OF sample_nodes(4), of sample_config]
  have "fst (make_citetrail GuidelinesAnalysis sample_config sample_doc [1, 1, 0, 3]) =
     make_citetrail_reference sample_config sample_doc [1, 1, 0, 3]" by (rule conjunct1)
  with sample_nodes(4) v show ?thesis by (intro conjI)
qed

lemma filter_upt_split:
  assumes "i < j"
  shows "filter P (map f [0..<j]) = filter P (map f [0..<i]) @ filter P [f i] @ filter P (map f [Suc i..<j])"
proof -
  from assms have "[0..<j] = [0..<i] @ [i..<j]"
    using upt_add_eq_append[of 0 i "j - i"] by simp
  moreover from assms have "[i..<j] = i # [Suc i..<j]" by (rule upt_conv_Cons)
  ultimately show ?thesis by simp
qed

lemma guidelines_make_citetrail_result:
  assumes "node_at d p = Some n"
  shows "fst (guidelines_make_citetrail config d p) =
     (case nearest_classified_ancestor d p of
        None \<Rightarrow> Inr (str (ordinal d p))
      | Some parent \<Rightarrow>
          (case citetrail_mapping config (get_xml_id d parent) of
             None \<Rightarrow> Inl TypeError
           | Some c \<Rightarrow> Inr (c @ ''.'' @ str (ordinal d p))))"
proof -
  let ?A = "filter (classified d) (all_ancestors p)"
  have near: "nearest_classified_ancestor d p = (case rev ?A of [] \<Rightarrow> None | x # xs \<Rightarrow> Some x)"
    by (simp add: nearest_classified_ancestor_def find_filter rev_filter)
  show ?thesis
  proof (cases "rev ?A")
    case Nil
    then have "?A = []" by simp
    with Nil show ?thesis
      unfolding guidelines_make_citetrail_def near
        citetrail_preceding_eq[OF assms] citetrail_ancestors_eq[OF assms]
      by (simp add: ordinal_def)
  next
    case (Cons x xs)
    then have "?A \<noteq> []" by auto
    with Cons show ?thesis
      unfolding guidelines_make_citetrail_def near
        citetrail_preceding_eq[OF assms] citetrail_ancestors_eq[OF assms]
      by (simp add: ordinal_def get_citetrail_mapping_def split: option.splits)
  qed
qed

lemma all_ancestors_last: "all_ancestors (pp @ [x]) = map (\<lambda>k. take k pp) [1..<Suc (length pp)]"
proof -
  have "map (\<lambda>k. take k (pp @ [x])) [1..<Suc (length pp)] =
      map (\<lambda>k. take k pp) [1..<Suc (length pp)]"
  proof (rule map_cong)
    fix k assume "k \<in> set [1..<Suc (length pp)]"
    then have "k < Suc (length pp)" by (simp only: set_upt atLeastLessThan_iff)
    then have "k - length pp = 0" by arith
    then show "take k (pp @ [x]) = take k pp" by simp
  qed simp
  then show ?thesis by (simp add: all_ancestors_def)
qed

lemma all_ancestors_sibling: "all_ancestors (pp @ [x]) = all_ancestors (pp @ [y])"
  by (simp only: all_ancestors_last)

lemma nearest_classified_ancestor_sibling:
  "nearest_classified_ancestor d (pp @ [x]) = nearest_classified_ancestor d (pp @ [y])"
  unfolding nearest_classified_ancestor_def all_ancestors_sibling[of pp x y] ..

lemma ordinal_sibling:
  assumes "i < j" and "classified d (pp @ [i])"
  shows "ordinal d (pp @ [i]) < ordinal d (pp @ [j])"
proof -
  let ?f = "\<lambda>k. pp @ [k]"
  have "length (filter (classified d) (map ?f [0..<i])) < length (filter (classified d) (map ?f [0..<j]))"
    unfolding filter_upt_split[OF assms(1), of "classified d" ?f] using assms(2) by simp
  then show ?thesis by (simp add: ordinal_def all_preceding_siblings_def)
qed

text \<open>
  Claim C7. Two siblings stand in document order, and the first has a non-empty
  \<^verbatim>\<open>get_node_type\<close>. Then the ordinal of the first (one plus the number of its preceding
  siblings whose \<^verbatim>\<open>get_node_type\<close> is non-empty) is strictly less than the ordinal of
  the second, and these ordinals are what \<^verbatim>\<open>make_citetrail\<close> computes for the two nodes:
  it returns them in decimal when the nodes have no classified ancestor, and after the
  citetrail of their common nearest classified ancestor and a dot when they have one.
  Only when the mapping has no citetrail for that ancestor does it return nothing, and
  then for both nodes. The type of the second sibling plays no role.
\<close>

theorem make_citetrail_ordinal_increasing:
  assumes "node_at d (pp @ [j]) = Some n2" and "i < j"
    and "get_node_type GuidelinesAnalysis d (pp @ [i]) = Inr t" and "t \<noteq> ''''"
  shows "ordinal d (pp @ [i]) < ordinal d (pp @ [j]) \<and>
    (case nearest_classified_ancestor d (pp @ [j]) of
       None \<Rightarrow>
         fst (make_citetrail GuidelinesAnalysis config d (pp @ [i])) = Inr (str (ordinal d (pp @ [i]))) \<and>
         fst (make_citetrail GuidelinesAnalysis config d (pp @ [j])) = Inr (str (ordinal d (pp @ [j])))
     | Some parent \<Rightarrow>
         (case citetrail_mapping config (get_xml_id d parent) of
            None \<Rightarrow>
              fst (make_citetrail GuidelinesAnalysis config d (pp @ [i])) = Inl TypeError \<and>
              fst (make_citetrail GuidelinesAnalysis config d (pp @ [j])) = Inl TypeError
          | Some c \<Rightarrow>
              fst (make_citetrail GuidelinesAnalysis config d (pp @ [i])) =
                Inr (c @ ''.'' @ str (ordinal d (pp @ [i]))) \<and>
              fst (make_citetrail GuidelinesAnalysis config d (pp @ [j])) =
                Inr (c @ ''.'' @ str (ordinal d (pp @ [j])))))"
proof -
  from assms(3,4) have c: "classified d (pp @ [i])" by (simp add: classified_def)
  then have "self_element d (pp @ [i])" by (rule classified_element)
  then obtain n1 where n1: "node_at d (pp @ [i]) = Some n1"
    by (auto simp: self_element_def split: option.splits)
  have lt: "ordinal d (pp @ [i]) < ordinal d (pp @ [j])"
    using assms(2) c by (rule ordinal_sibling)
  have same: "nearest_classified_ancestor d (pp @ [i]) = nearest_classified_ancestor d (pp @ [j])"
    by (rule nearest_classified_ancestor_sibling)
  show ?thesis
    using lt
    unfolding make_citetrail.simps guidelines_make_citetrail_result[OF n1]
      guidelines_make_citetrail_result[OF assms(1)] same
    by (simp split: option.splits)
qed

theorem make_citetrail_ordinal_increasing_witness:
  "node_at sample_doc ([1, 1, 0] @ [3]) = Some (Element (tei ''p'') [] None [] None) \<and>
   (0 :: nat) < 3 \<and>
   get_node_type GuidelinesAnalysis sample_doc ([1, 1, 0] @ [0]) = Inr ''basic'' \<and>
   ''basic'' \<noteq> '''' \<and>
   ordinal sample_doc ([1, 1, 0] @ [0]) < ordinal sample_doc ([1, 1, 0] @ [3]) \<and>
   ordinal sample_doc ([1, 1, 0] @ [0]) = 1 \<and> ordinal sample_doc ([1, 1, 0] @ [3]) = 3 \<and>
   fst (make_citetrail GuidelinesAnalysis sample_config sample_doc ([1, 1, 0] @ [0])) = Inr ''1.1'' \<and>
   fst (make_citetrail GuidelinesAnalysis sample_config sample_doc ([1, 1, 0] @ [3])) = Inr ''1.3''"
proof -
  have h1: "node_at sample_doc ([1, 1, 0] @ [3]) = Some (Element (tei ''p'') [] None [] None)"
    by code_simp
  have h2: "(0 :: nat) < 3" by simp
  have h3: "get_node_type GuidelinesAnalysis sample_doc ([1, 1, 0] @ [0]) = Inr ''basic''"
    by code_simp
  have h4: "''basic'' \<noteq> ''''" by simp
  have v1: "ordinal sample_doc ([1, 1, 0] @ [0]) = 1" by code_simp
  have v2: "ordinal sample_doc ([1, 1, 0] @ [3]) = 3" by code_simp
  have v3: "fst (make_citetrail GuidelinesAnalysis sample_config sample_doc ([1, 1, 0] @ [0])) =
      Inr ''1.1''" by code_simp
  have v4: "fst (make_citetrail GuidelinesAnalysis sample_config sample_doc ([1, 1, 0] @ [3])) =
      Inr ''1.3''" by code_simp
  from make_citetrail_ordinal_increasing [OF h1 h2 h3 h4, of sample_config]
  have "ordinal sample_doc ([1, 1, 0] @ [0]) < ordinal sample_doc ([1, 1, 0] @ [3])"
    by (rule conjunct1)
  with h1 h2 h3 h4 v1 v2 v3 v4 show ?thesis by (intro conjI)
qed

section \<open>Basic nodes and list types\<close>

lemma ancestor_exists_iff:
  assumes "node_at d p = Some n"
  shows "ancestor_exists e d p = (\<exists>k. 1 \<le> k \<and> k < length p \<and> e d (take k p))"
proof -
  have "ancestor_exists e d p = (\<exists>q \<in> set (all_ancestors p). e d q)"
    by (simp add: ancestor_exists_def xpath_ancestors_all[OF assms] list_ex_iff)
  also have "\<dots> = (\<exists>k. 1 \<le> k \<and> k < length p \<and> e d (take k p))"
    unfolding all_ancestors_def by auto
  finally show ?thesis .
qed

lemma self_name_node: "self_name q d p \<Longrightarrow> \<exists>n. node_at d p = Some n \<and> has_tag q n"
  by (auto simp: self_name_def split: option.splits)

lemma self_name_element: "self_name q d p \<Longrightarrow> self_element d p"
  by (auto simp: self_name_def self_element_def has_tag_def is_element_node_def
      split: option.splits node.splits)

lemma self_name_unique: "self_name q d p \<Longrightarrow> self_name q' d p \<Longrightarrow> q = q'"
  by (auto simp: self_name_def has_tag_def split: option.splits node.splits)

lemma guidelines_leaf_element: "guidelines_leaf d p \<Longrightarrow> self_element d p"
  by (auto simp: guidelines_leaf_def dest: self_name_element)

lemma guidelines_leaf_not_div: "guidelines_leaf d p \<Longrightarrow> \<not> self_name (tei ''div'') d p"
  by (auto simp: guidelines_leaf_def prefixed_tei dest: self_name_unique)

text \<open>
  Claim C3. For the Guidelines variant, \<^verbatim>\<open>is_basic_node\<close> holds for a node only if the
  node matches the leaf pattern (\<^verbatim>\<open>tei:p\<close>, \<^verbatim>\<open>tei:head\<close> or \<^verbatim>\<open>tei:list\<close>), none of its
  ancestors matches the leaf pattern, and one of its ancestors is a \<^verbatim>\<open>tei:div\<close> that has
  itself a \<^verbatim>\<open>tei:text\<close> ancestor. A node that matches the leaf pattern inside an ancestor
  that matches it is not basic, and its \<^verbatim>\<open>get_node_type\<close> is the empty string. The
  ancestors of the node at \<open>p\<close> are the nodes at \<open>take k p\<close> for \<open>1 \<le> k < length p\<close>.
\<close>

theorem guidelines_basic_node:
  "(is_basic_node GuidelinesAnalysis d p = Inr True \<longrightarrow>
      guidelines_leaf d p \<and>
      (\<forall>k. 1 \<le> k \<and> k < length p \<longrightarrow> \<not> guidelines_leaf d (take k p)) \<and>
      (\<exists>k m. 1 \<le> m \<and> m < k \<and> k < length p \<and>
         self_name (tei ''div'') d (take k p) \<and> self_name (tei ''text'') d (take m p))) \<and>
   (guidelines_leaf d p \<and> 1 \<le> j \<and> j < length p \<and> guidelines_leaf d (take j p) \<longrightarrow>
      is_basic_node GuidelinesAnalysis d p = Inr False \<and>
      get_node_type GuidelinesAnalysis d p = Inr '''')"
proof (intro conjI impI)
  assume b: "is_basic_node GuidelinesAnalysis d p = Inr True"
  then have el: "self_element d p" and x: "is_basic_node_xpath GuidelinesAnalysis d p"
    by (auto simp: is_basic_node_def XPath_def split: if_splits)
  from el obtain n where n: "node_at d p = Some n"
    by (auto simp: self_element_def split: option.splits)
  from x have leaf: "guidelines_leaf d p" and noleaf: "\<not> ancestor_exists guidelines_leaf d p"
    and sanc: "ancestor_exists (structural_node_def GuidelinesAnalysis) d p"
    by (simp_all add: is_basic_node_xpath_def)
  show "guidelines_leaf d p" by (rule leaf)
  show "\<forall>k. 1 \<le> k \<and> k < length p \<longrightarrow> \<not> guidelines_leaf d (take k p)"
    using noleaf unfolding ancestor_exists_iff[OF n] by blast
  from sanc obtain k where k: "1 \<le> k" "k < length p"
    and dv: "self_name (tei ''div'') d (take k p)"
    and tanc: "ancestor_exists (self_name (tei ''text'')) d (take k p)"
    unfolding ancestor_exists_iff[OF n] by auto
  from self_name_node[OF dv] obtain a where a: "node_at d (take k p) = Some a" by blast
  from tanc obtain m where m: "1 \<le> m" "m < length (take k p)"
    and t: "self_name (tei ''text'') d (take m (take k p))"
    unfolding ancestor_exists_iff[OF a] by auto
  from m k have "m < k" by simp
  moreover from this have "take m (take k p) = take m p" by (simp add: min_def)
  ultimately show "\<exists>k m. 1 \<le> m \<and> m < k \<and> k < length p \<and>
         self_name (tei ''div'') d (take k p) \<and> self_name (tei ''text'') d (take m p)"
    using k m dv t by auto
next
  assume h: "guidelines_leaf d p \<and> 1 \<le> j \<and> j < length p \<and> guidelines_leaf d (take j p)"
  then have el: "self_element d p" by (auto dest: guidelines_leaf_element)
  then obtain n where n: "node_at d p = Some n"
    by (auto simp: self_element_def split: option.splits)
  from h have "ancestor_exists guidelines_leaf d p"
    unfolding ancestor_exists_iff[OF n] by blast
  then have nb: "\<not> is_basic_node_xpath GuidelinesAnalysis d p"
    by (simp add: is_basic_node_xpath_def)
  from h have ns: "\<not> is_structural_node_xpath GuidelinesAnalysis d p"
    by (simp add: is_structural_node_xpath_def guidelines_leaf_not_div)
  from el nb show "is_basic_node GuidelinesAnalysis d p = Inr False"
    by (simp add: is_basic_node_def XPath_def)
  from el nb ns show "get_node_type GuidelinesAnalysis d p = Inr ''''"
    by (simp add: get_node_type_element)
qed

theorem guidelines_basic_node_witness:
  "is_basic_node GuidelinesAnalysis sample_doc [1, 1, 0, 3] = Inr True \<and>
   guidelines_leaf sample_doc [1, 1, 0, 3] \<and>
   (\<exists>k m. 1 \<le> m \<and> m < k \<and> k < length [1, 1, 0, 3 :: nat] \<and>
      self_name (tei ''div'') sample_doc (take k [1, 1, 0, 3]) \<and>
      self_name (tei ''text'') sample_doc (take m [1, 1, 0, 3])) \<and>
   guidelines_leaf sample_doc [1, 1, 0, 2, 0] \<and> (1 :: nat) \<le> 4 \<and>
   4 < length [1, 1, 0, 2, 0 :: nat] \<and> guidelines_leaf sample_doc (take 4 [1, 1, 0, 2, 0]) \<and>
   is_basic_node GuidelinesAnalysis sample_doc [1, 1, 0, 2, 0] = Inr False \<and>
   get_node_type GuidelinesAnalysis sample_doc [1, 1, 0, 2, 0] = Inr ''''"
proof -
  have a: "is_basic_node GuidelinesAnalysis sample_doc [1, 1, 0, 3] = Inr True"
    by code_simp
  have b: "guidelines_leaf sample_doc [1, 1, 0, 2, 0] \<and> (1 :: nat) \<le> 4 \<and>
      4 < length [1, 1, 0, 2, 0 :: nat] \<and> guidelines_leaf sample_doc (take 4 [1, 1, 0, 2, 0])"
    by code_simp
  from guidelines_basic_node [of sample_doc "[1, 1, 0, 3]"] a
  have c: "guidelines_leaf sample_doc [1, 1, 0, 3] \<and>
      (\<exists>k m. 1 \<le> m \<and> m < k \<and> k < length [1, 1, 0, 3 :: nat] \<and>
        self_name (tei ''div'') sample_doc (take k [1, 1, 0, 3]) \<and>
        self_name (tei ''text'') sample_doc (take m [1, 1, 0, 3]))"
    by blast
  from guidelines_basic_node [of sample_doc "[1, 1, 0, 2, 0]" 4] b
  have e: "is_basic_node GuidelinesAnalysis sample_doc [1, 1, 0, 2, 0] = Inr False \<and>
      get_node_type GuidelinesAnalysis sample_doc [1, 1, 0, 2, 0] = Inr ''''"
    by blast
  from a b c e show ?thesis by blast
qed

lemma map_of_filter:
  "map_of al q = (case map snd (filter (\<lambda>kv. fst kv = q) al) of [] \<Rightarrow> None | v # vs \<Rightarrow> Some v)"
  by (induction al) auto

lemma node_get_xpath_attribute:
  "node_get q d p = (case xpath_attribute q d p of [] \<Rightarrow> None | v # vs \<Rightarrow> Some v)"
  by (cases "node_at d p") (simp_all add: node_get_def xpath_attribute_def map_of_filter)

lemma list_with_type_attribute:
  assumes "list_with_type d a"
  shows "\<exists>v vs. xpath_attribute (unprefixed ''type'') d a = v # vs \<and>
           node_get (unprefixed ''type'') d a = Some v"
proof -
  from assms have "xpath_attribute (unprefixed ''type'') d a \<noteq> []"
    by (simp add: list_with_type_def has_attribute_def)
  then obtain v vs where "xpath_attribute (unprefixed ''type'') d a = v # vs"
    by (cases "xpath_attribute (unprefixed ''type'') d a") simp_all
  then show ?thesis by (simp add: node_get_xpath_attribute)
qed

lemma nearest_ancestor:
  assumes "1 \<le> k" and "k < length p" and "P (take k p)"
    and "\<forall>j. k < j \<and> j < length p \<longrightarrow> \<not> P (take j p)"
  shows "\<exists>rest. rev (filter P (all_ancestors p)) = take k p # rest"
proof -
  let ?f = "\<lambda>k. take k p"
  from assms(1,2) have "[1..<length p] = [1..<k] @ [k..<length p]"
    using upt_add_eq_append[of 1 k "length p - k"] by simp
  moreover from assms(2) have "[k..<length p] = k # [Suc k..<length p]" by (rule upt_conv_Cons)
  ultimately have split: "all_ancestors p = map ?f [1..<k] @ [?f k] @ map ?f [Suc k..<length p]"
    by (simp add: all_ancestors_def)
  have "filter P (map ?f [Suc k..<length p]) = []"
    using assms(4) by (auto simp: filter_empty_conv)
  with assms(3) have "filter P (all_ancestors p) = filter P (map ?f [1..<k]) @ [?f k]"
    unfolding split by simp
  then show ?thesis by simp
qed

text \<open>
  Claim C10. For every node of a document, \<^verbatim>\<open>get_list_type\<close> returns the node's own
  \<^verbatim>\<open>type\<close> attribute when the node is a \<^verbatim>\<open>tei:list\<close> with such an attribute; otherwise
  the \<^verbatim>\<open>type\<close> attribute of the nearest ancestor that is a \<^verbatim>\<open>tei:list\<close> with such an
  attribute, when there is one; otherwise the empty string. It never returns \<^verbatim>\<open>None\<close>
  and never raises.
\<close>

theorem get_list_type_cases:
  assumes "node_at d p = Some n"
  shows "(list_with_type d p \<longrightarrow>
            (\<exists>v. node_get (unprefixed ''type'') d p = Some v \<and> get_list_type d p = Inr (Some v))) \<and>
         (\<not> list_with_type d p \<and> 1 \<le> k \<and> k < length p \<and> list_with_type d (take k p) \<and>
            (\<forall>j. k < j \<and> j < length p \<longrightarrow> \<not> list_with_type d (take j p)) \<longrightarrow>
            (\<exists>w. node_get (unprefixed ''type'') d (take k p) = Some w \<and>
                 get_list_type d p = Inr (Some w))) \<and>
         (\<not> list_with_type d p \<and> (\<forall>j. 1 \<le> j \<and> j < length p \<longrightarrow> \<not> list_with_type d (take j p)) \<longrightarrow>
            get_list_type d p = Inr (Some '''')) \<and>
         (\<exists>v. get_list_type d p = Inr (Some v))"
proof (intro conjI impI)
  assume s: "list_with_type d p"
  from list_with_type_attribute[OF s] obtain v where "node_get (unprefixed ''type'') d p = Some v"
    by blast
  with s show "\<exists>v. node_get (unprefixed ''type'') d p = Some v \<and> get_list_type d p = Inr (Some v)"
    by (simp add: get_list_type_def)
next
  assume h: "\<not> list_with_type d p \<and> 1 \<le> k \<and> k < length p \<and> list_with_type d (take k p) \<and>
            (\<forall>j. k < j \<and> j < length p \<longrightarrow> \<not> list_with_type d (take j p))"
  then have anc: "ancestor_exists list_with_type d p"
    unfolding ancestor_exists_iff[OF assms] by blast
  from h nearest_ancestor[of k p "list_with_type d"] obtain rest
    where r: "rev (filter (list_with_type d) (all_ancestors p)) = take k p # rest" by blast
  from h list_with_type_attribute[of d "take k p"] obtain w ws
    where w: "xpath_attribute (unprefixed ''type'') d (take k p) = w # ws"
      "node_get (unprefixed ''type'') d (take k p) = Some w" by blast
  from r w(1) have "nearest_list_type d p = w # ws"
    by (simp add: nearest_list_type_def xpath_ancestors_all[OF assms])
  with h anc w(2) show "\<exists>w. node_get (unprefixed ''type'') d (take k p) = Some w \<and>
                 get_list_type d p = Inr (Some w)"
    by (simp add: get_list_type_def)
next
  assume h: "\<not> list_with_type d p \<and> (\<forall>j. 1 \<le> j \<and> j < length p \<longrightarrow> \<not> list_with_type d (take j p))"
  then have "\<not> ancestor_exists list_with_type d p"
    unfolding ancestor_exists_iff[OF assms] by blast
  with h show "get_list_type d p = Inr (Some '''')"
    by (simp add: get_list_type_def)
next
  show "\<exists>v. get_list_type d p = Inr (Some v)"
  proof (cases "list_with_type d p")
    case True
    from list_with_type_attribute[OF True] obtain v where "node_get (unprefixed ''type'') d p = Some v"
      by blast
    with True show ?thesis by (simp add: get_list_type_def)
  next
    case False
    show ?thesis
    proof (cases "ancestor_exists list_with_type d p")
      case no: False
      with False show ?thesis by (simp add: get_list_type_def)
    next
      case yes: True
      then have "filter (list_with_type d) (xpath_ancestors d p) \<noteq> []"
        by (auto simp: ancestor_exists_def list_ex_iff filter_empty_conv)
      then obtain a rest where r: "rev (filter (list_with_type d) (xpath_ancestors d p)) = a # rest"
        by (cases "rev (filter (list_with_type d) (xpath_ancestors d p))") simp_all
      then have "a \<in> set (filter (list_with_type d) (xpath_ancestors d p))"
        by (metis list.set_intros(1) set_rev)
      then have "list_with_type d a" by simp
      from list_with_type_attribute[OF this] obtain v vs
        where "xpath_attribute (unprefixed ''type'') d a = v # vs" by blast
      with r have "nearest_list_type d p = v # vs" by (simp add: nearest_list_type_def)
      with False yes show ?thesis by (simp add: get_list_type_def)
    qed
  qed
qed

theorem get_list_type_cases_witness:
  "node_at sample_doc [1, 1, 0, 2, 0, 0] = Some (Element (tei ''item'') [] (Some ''one'') [] None) \<and>
   \<not> list_with_type sample_doc [1, 1, 0, 2, 0, 0] \<and> (1 :: nat) \<le> 5 \<and>
   5 < length [1, 1, 0, 2, 0, 0 :: nat] \<and> list_with_type sample_doc (take 5 [1, 1, 0, 2, 0, 0]) \<and>
   (\<exists>w. node_get (unprefixed ''type'') sample_doc (take 5 [1, 1, 0, 2, 0, 0]) = Some w \<and>
      get_list_type sample_doc [1, 1, 0, 2, 0, 0] = Inr (Some w)) \<and>
   get_list_type sample_doc [1, 1, 0, 2, 0, 0] = Inr (Some ''ordered'')"
proof -
  have n: "node_at sample_doc [1, 1, 0, 2, 0, 0] =
      Some (Element (tei ''item'') [] (Some ''one'') [] None)"
    by code_simp
  have h: "\<not> list_with_type sample_doc [1, 1, 0, 2, 0, 0] \<and> (1 :: nat) \<le> 5 \<and>
      5 < length [1, 1, 0, 2, 0, 0 :: nat] \<and> list_with_type sample_doc (take 5 [1, 1, 0, 2, 0, 0])"
    by code_simp
  have u: "\<forall>j. 5 < j \<and> j < length [1, 1, 0, 2, 0, 0 :: nat] \<longrightarrow>
      \<not> list_with_type sample_doc (take j [1, 1, 0, 2, 0, 0])"
  proof (intro allI impI)
    fix j :: nat
    assume "5 < j \<and> j < length [1, 1, 0, 2, 0, 0 :: nat]"
    then have "5 < j \<and> j < 6" by simp
    then have False by arith
    then show "\<not> list_with_type sample_doc (take j [1, 1, 0, 2, 0, 0])" ..
  qed
  have v: "get_list_type sample_doc [1, 1, 0, 2, 0, 0] = Inr (Some ''ordered'')"
    by code_simp
  from get_list_type_cases [OF n, of 5] h u
  have "\<exists>w. node_get (unprefixed ''type'') sample_doc (take 5 [1, 1, 0, 2, 0, 0]) = Some w \<and>
      get_list_type sample_doc [1, 1, 0, 2, 0, 0] = Inr (Some w)"
    by blast
  with n h v show ?thesis by blast
qed

end
